theory Spec2Isabelle
  imports Main
begin

section \<open>Project member invites: \<open>src/routes/projectMemberInvites/create.js\<close>\<close>

text \<open>
  A shallow embedding of the route that creates project member invites. JavaScript strings
  are modelled as \<open>string\<close> (the model covers ASCII text), \<open>null\<close>/\<open>undefined\<close> as
  \<open>None\<close>, a rejected promise or a thrown exception as \<open>Inl\<close> of a \<open>js_error\<close>.
\<close>

subsection \<open>Strings\<close>

definition toLowerCase_char :: "char \<Rightarrow> char" where
  "toLowerCase_char c =
     (case map_of (zip ''ABCDEFGHIJKLMNOPQRSTUVWXYZ'' ''abcdefghijklmnopqrstuvwxyz'') c of
        None \<Rightarrow> c
      | Some l \<Rightarrow> l)"

definition toLowerCase :: "string \<Rightarrow> string" where
  \<comment> \<open>\<open>String.prototype.toLowerCase\<close>\<close>
  "toLowerCase s = map toLowerCase_char s"

definition toLower :: "string option \<Rightarrow> string" where
  \<comment> \<open>lodash \<open>_.toLower\<close>: \<open>null\<close> and \<open>undefined\<close> are converted to the empty string\<close>
  "toLower v = (case v of None \<Rightarrow> [] | Some s \<Rightarrow> toLowerCase s)"

fun replace_first :: "char \<Rightarrow> string \<Rightarrow> string \<Rightarrow> string" where
  \<comment> \<open>\<open>s.replace(c, r)\<close> with a string pattern: only the first occurrence is replaced\<close>
  "replace_first c r [] = []"
| "replace_first c r (x # xs) = (if x = c then r @ xs else x # replace_first c r xs)"

fun join :: "string \<Rightarrow> string list \<Rightarrow> string" where
  \<comment> \<open>\<open>Array.prototype.join\<close>\<close>
  "join sep [] = []"
| "join sep [x] = x"
| "join sep (x # y # ys) = x @ sep @ join sep (y # ys)"

definition split_chars :: "string \<Rightarrow> string list" where
  \<comment> \<open>\<open>s.split('')\<close>\<close>
  "split_chars s = map (\<lambda>c. [c]) s"

subsection \<open>Errors\<close>

datatype js_error =
    HttpError nat string      \<comment> \<open>\<open>new Error(message)\<close> with \<open>err.status\<close> set by the handler\<close>
  | SyntaxError               \<comment> \<open>thrown by \<open>new RegExp\<close> on an invalid pattern\<close>
  | Rejected "string option"  \<comment> \<open>a collaborator's rejection, with its \<open>statusText\<close>\<close>
  | Unmodelled                \<comment> \<open>a pattern outside the modelled fragment of the RegExp grammar\<close>

fun statusText :: "js_error \<Rightarrow> string option" where
  "statusText (Rejected t) = t"
| "statusText _ = None"

subsection \<open>Regular expressions\<close>

text \<open>
  The fragment of the RegExp pattern grammar that \<open>compareEmail\<close> can produce: literal
  characters, the escape \<open>\\.\<close>, the wildcard \<open>.\<close>, and the quantifiers \<open>?\<close> and \<open>+\<close>
  (each with an optional lazy marker \<open>?\<close>, which does not change what \<open>test\<close> accepts).
\<close>

datatype rx_atom = Lit char | AnyChar

datatype rx_piece = One rx_atom | Opt rx_atom bool | Plus rx_atom bool

definition is_syntax_char :: "char \<Rightarrow> bool" where
  "is_syntax_char c = (c \<in> set ''^$*()[]{}|/'')"

fun parse_rev :: "rx_piece list \<Rightarrow> string \<Rightarrow> js_error + rx_piece list" where
  \<comment> \<open>the pieces read so far are kept in reverse, the last one first\<close>
  "parse_rev acc [] = Inr (rev acc)"
| "parse_rev acc (c # cs) =
     (if c = CHR 0x5C then
        (case cs of
           [] \<Rightarrow> Inl SyntaxError
         | e # es \<Rightarrow> if e = CHR ''.'' then parse_rev (One (Lit e) # acc) es else Inl Unmodelled)
      else if c = CHR ''.'' then parse_rev (One AnyChar # acc) cs
      else if c = CHR ''?'' then
        (case acc of
           One a # r \<Rightarrow> parse_rev (Opt a False # r) cs
         | Opt a False # r \<Rightarrow> parse_rev (Opt a True # r) cs
         | Plus a False # r \<Rightarrow> parse_rev (Plus a True # r) cs
         | _ \<Rightarrow> Inl SyntaxError)
      else if c = CHR ''+'' then
        (case acc of
           One a # r \<Rightarrow> parse_rev (Plus a False # r) cs
         | _ \<Rightarrow> Inl SyntaxError)
      else if is_syntax_char c then Inl Unmodelled
      else parse_rev (One (Lit c) # acc) cs)"

definition RegExp_new :: "string \<Rightarrow> js_error + rx_piece list" where
  \<comment> \<open>\<open>new RegExp(pattern)\<close>\<close>
  "RegExp_new pattern = parse_rev [] pattern"

fun atom_matches :: "rx_atom \<Rightarrow> char \<Rightarrow> bool" where
  "atom_matches (Lit l) c = (c = l)"
| "atom_matches AnyChar c = (c \<noteq> CHR 0x0A \<and> c \<noteq> CHR 0x0D)"

fun match_here :: "rx_piece list \<Rightarrow> string \<Rightarrow> bool" where
  "match_here [] s = True"
| "match_here (One a # ps) [] = False"
| "match_here (One a # ps) (c # cs) = (atom_matches a c \<and> match_here ps cs)"
| "match_here (Opt a l # ps) [] = match_here ps []"
| "match_here (Opt a l # ps) (c # cs) =
     ((atom_matches a c \<and> match_here ps cs) \<or> match_here ps (c # cs))"
| "match_here (Plus a l # ps) [] = False"
| "match_here (Plus a l # ps) (c # cs) =
     (atom_matches a c \<and> (match_here (Plus a l # ps) cs \<or> match_here ps cs))"

fun RegExp_test :: "rx_piece list \<Rightarrow> string \<Rightarrow> bool" where
  \<comment> \<open>\<open>regex.test(s)\<close> without flags: a match may start at any index\<close>
  "RegExp_test ps [] = match_here ps []"
| "RegExp_test ps (c # cs) = (match_here ps (c # cs) \<or> RegExp_test ps cs)"

subsection \<open>\<open>compareEmail\<close>\<close>

definition is_word_char :: "char \<Rightarrow> bool" where
  \<comment> \<open>the class \<open>\\w\<close>\<close>
  "is_word_char c =
     (c \<in> set ''abcdefghijklmnopqrstuvwxyzABCDEFGHIJKLMNOPQRSTUVWXYZ0123456789_'')"

definition is_local_char :: "char \<Rightarrow> bool" where
  \<comment> \<open>the class \<open>[\\w.+-]\<close>\<close>
  "is_local_char c = (is_word_char c \<or> c = CHR ''.'' \<or> c = CHR ''+'' \<or> c = CHR ''-'')"

definition emailSplit :: "string \<Rightarrow> (string \<times> string) option" where
  \<comment> \<open>\<open>/(^[\\w.+-]+)(@gmail\\.com|@googlemail\\.com)$/g.exec(s)\<close>: capture groups 1 and 2.
      The class excludes \<open>@\<close>, so group 1 is the longest prefix within the class.\<close>
  "emailSplit s =
     (let local = takeWhile is_local_char s; rest = dropWhile is_local_char s
      in if local \<noteq> [] \<and> (rest = ''@gmail.com'' \<or> rest = ''@googlemail.com'')
         then Some (local, rest) else None)"

definition compareEmail :: "string option \<Rightarrow> string option \<Rightarrow> bool \<Rightarrow> js_error + bool" where
  \<comment> \<open>the third argument is \<open>options.UNIQUE_GMAIL_VALIDATION\<close>\<close>
  "compareEmail email1 email2 UNIQUE_GMAIL_VALIDATION =
     (case (if UNIQUE_GMAIL_VALIDATION then emailSplit (toLower email1) else None) of
        Some (local, domain) \<Rightarrow>
          (let address = replace_first (CHR ''.'') [] local;
               emailDomain = replace_first (CHR ''.'') [CHR 0x5C, CHR ''.''] domain;
               regexAddress = join [CHR 0x5C, CHR ''.'', CHR ''?''] (split_chars address)
           in case RegExp_new (regexAddress @ emailDomain) of
                Inl e \<Rightarrow> Inl e
              | Inr regex \<Rightarrow> Inr (RegExp_test regex (toLower email2)))
      | None \<Rightarrow> Inr (toLower email1 = toLower email2))"

subsection \<open>Data\<close>

datatype jsnum = NaN | Num int

datatype invite_status = PENDING | REQUESTED

text \<open>A row of \<open>ProjectMemberInvite\<close>; also the template \<open>data\<close> the rows are cloned from.\<close>

record invite =
  projectId :: int
  userId :: "jsnum option"
  email :: "string option"
  role :: string
  status :: invite_status
  createdBy :: int
  updatedBy :: int

text \<open>An account returned by \<open>util.lookupUserEmails\<close>.\<close>

record existent_user =
  user_id :: string
  user_email :: "string option"

text \<open>An entry of \<open>failed\<close>: \<open>{ userId, message }\<close> or \<open>{ email, message }\<close>.\<close>

datatype failure =
    UserFailure "int option" string
  | EmailFailure string "string option"

text \<open>\<open>req.body.param\<close>\<close>

record invite_param =
  userIds :: "int list option"
  emails :: "string list option"
  param_role :: string

text \<open>
  The members of \<open>../../constants\<close> that the route reads. That module is not part of the
  sources at hand, so its values are parameters of the model.
\<close>

record constants =
  CUSTOMER :: string
  COPILOT :: string
  PROJECT_MEMBER_MANAGER_ROLES :: "string list"
  MANAGER_ROLES :: "string list"
  CONNECT_ADMIN :: string
  COPILOT_MANAGER :: string

text \<open>
  The request context and the collaborators the route calls: \<open>util.hasRoles(req, _)\<close>,
  \<open>req.authUser.userId\<close>, the \<open>userId\<close>s of \<open>req.context.currentProjectMembers\<close>,
  \<open>_.parseInt(req.params.projectId)\<close>, \<open>util.getUserRoles\<close>,
  \<open>models.ProjectMemberInvite.getPendingInvitesForProject\<close>, \<open>util.lookupUserEmails\<close>,
  \<open>models.ProjectMemberInvite.create\<close> (which either rejects or resolves with the row it
  was given) and \<open>config.get('UNIQUE_GMAIL_VALIDATION')\<close>.
\<close>

record req =
  hasRoles :: "string list \<Rightarrow> bool"
  authUser_userId :: int
  currentProjectMembers :: "int list"
  params_projectId :: int
  getUserRoles :: "int \<Rightarrow> js_error + string list"
  getPendingInvitesForProject :: "int \<Rightarrow> js_error + invite list"
  lookupUserEmails :: "string list \<Rightarrow> js_error + existent_user list"
  create_rejects :: "invite \<Rightarrow> js_error option"
  UNIQUE_GMAIL_VALIDATION :: bool

datatype response =
    Next js_error                                  \<comment> \<open>\<open>next(err)\<close>\<close>
  | Json nat "invite list" "failure list option"   \<comment> \<open>status, \<open>success\<close>, \<open>failed\<close>\<close>

text \<open>
  What one call of the route does: its response, the rows inserted, the rows announced by
  \<open>req.app.emit\<close> and \<open>pubsub.publish\<close>, and the rows \<open>sendInviteEmail\<close> was called with.
\<close>

record outcome =
  response :: response
  created :: "invite list"
  published :: "invite list"
  invite_emails :: "invite list"

subsection \<open>Helpers\<close>

definition is_space :: "char \<Rightarrow> bool" where
  "is_space c = (c \<in> set [CHR '' '', CHR 0x09, CHR 0x0A, CHR 0x0B, CHR 0x0C, CHR 0x0D])"

definition digit_val :: "char \<Rightarrow> int option" where
  "digit_val c = map_of (zip ''0123456789'' [0, 1, 2, 3, 4, 5, 6, 7, 8, 9]) c"

fun digits_val :: "int \<Rightarrow> string \<Rightarrow> int" where
  \<comment> \<open>the value of the longest prefix of decimal digits, after the accumulator\<close>
  "digits_val acc [] = acc"
| "digits_val acc (c # cs) =
     (case digit_val c of None \<Rightarrow> acc | Some d \<Rightarrow> digits_val (10 * acc + d) cs)"

definition parseInt10 :: "string \<Rightarrow> jsnum" where
  \<comment> \<open>\<open>parseInt(s, 10)\<close>; the model keeps the exact integer, which is what the code's double
      holds below \<open>2^53\<close>\<close>
  "parseInt10 s =
     (let t = dropWhile is_space s;
          neg = (case t of [] \<Rightarrow> False | c # _ \<Rightarrow> c = CHR ''-'');
          u = (case t of [] \<Rightarrow> [] | c # cs \<Rightarrow> if c = CHR ''-'' \<or> c = CHR ''+'' then cs else t)
      in case u of
           [] \<Rightarrow> NaN
         | c # _ \<Rightarrow> if digit_val c = None then NaN
                    else Num (if neg then - digits_val 0 u else digits_val 0 u))"

fun same_userId :: "jsnum option \<Rightarrow> jsnum \<Rightarrow> bool" where
  \<comment> \<open>\<open>i.userId === u\<close>: \<open>NaN\<close> is not equal to itself, \<open>null\<close> equals no number\<close>
  "same_userId (Some (Num a)) (Num b) = (a = b)"
| "same_userId _ _ = False"

definition hasIntersection :: "string list \<Rightarrow> string list \<Rightarrow> bool" where
  \<comment> \<open>Modelled from the spec: \<open>util.hasIntersection\<close> is not part of the sources at hand; a
      candidate is rejected when its fetched role set has no intersection with the
      manager role set.\<close>
  "hasIntersection xs ys = list_ex (\<lambda>x. x \<in> set ys) xs"

fun lodash_some :: "('a \<Rightarrow> js_error + bool) \<Rightarrow> 'a list \<Rightarrow> js_error + bool" where
  \<comment> \<open>\<open>_.some\<close> with a predicate that may throw\<close>
  "lodash_some p [] = Inr False"
| "lodash_some p (x # xs) =
     (case p x of Inl e \<Rightarrow> Inl e | Inr b \<Rightarrow> if b then Inr True else lodash_some p xs)"

fun lodash_remove :: "('a \<Rightarrow> js_error + bool) \<Rightarrow> 'a list \<Rightarrow> js_error + 'a list" where
  \<comment> \<open>what \<open>_.remove\<close> leaves in the array, with a predicate that may throw\<close>
  "lodash_remove p [] = Inr []"
| "lodash_remove p (x # xs) =
     (case p x of
        Inl e \<Rightarrow> Inl e
      | Inr b \<Rightarrow> (case lodash_remove p xs of
                    Inl e \<Rightarrow> Inl e
                  | Inr r \<Rightarrow> Inr (if b then r else x # r)))"

fun lodash_zip :: "'a option list \<Rightarrow> 'b option list \<Rightarrow> ('a option \<times> 'b option) list" where
  \<comment> \<open>\<open>_.zip\<close>: the shorter array is padded with \<open>undefined\<close>\<close>
  "lodash_zip [] [] = []"
| "lodash_zip (x # xs) [] = (x, None) # lodash_zip xs []"
| "lodash_zip [] (y # ys) = (None, y) # lodash_zip [] ys"
| "lodash_zip (x # xs) (y # ys) = (x, y) # lodash_zip xs ys"

fun promise_all :: "(js_error + 'a) list \<Rightarrow> js_error + 'a list" where
  \<comment> \<open>\<open>Promise.all\<close>: rejects when one of the promises does (here: the first in the list)\<close>
  "promise_all [] = Inr []"
| "promise_all (p # ps) =
     (case p of
        Inl e \<Rightarrow> Inl e
      | Inr v \<Rightarrow> (case promise_all ps of Inl e \<Rightarrow> Inl e | Inr vs \<Rightarrow> Inr (v # vs)))"

subsection \<open>\<open>buildCreateInvitePromises\<close>\<close>

definition already_invited :: "invite list \<Rightarrow> jsnum \<Rightarrow> bool" where
  \<comment> \<open>\<open>_.some(invites, i => i.userId === u)\<close>\<close>
  "already_invited invites u = list_ex (\<lambda>i. same_userId (userId i) u) invites"

definition email_invited :: "bool \<Rightarrow> invite list \<Rightarrow> string \<Rightarrow> js_error + bool" where
  \<comment> \<open>\<open>_.some(invites, i => compareEmail(i.email, email, { UNIQUE_GMAIL_VALIDATION }))\<close>\<close>
  "email_invited flag invites e = lodash_some (\<lambda>i. compareEmail (email i) (Some e) flag) invites"

definition is_existent :: "existent_user list \<Rightarrow> string \<Rightarrow> js_error + bool" where
  \<comment> \<open>\<open>_.find(existentUsers, existentUser => compareEmail(existentUser.email, inviteEmail,
      { UNIQUE_GMAIL_VALIDATION: false }))\<close> finds an account\<close>
  "is_existent existentUsers inviteEmail =
     lodash_some (\<lambda>existentUser. compareEmail (user_email existentUser) (Some inviteEmail) False)
       existentUsers"

definition user_invites :: "invite \<Rightarrow> invite list \<Rightarrow> int list \<Rightarrow> invite list" where
  \<comment> \<open>lines 68 to 78: the rows queued for the user ids that are not invited yet\<close>
  "user_invites data invites us =
     map (\<lambda>u. data\<lparr>userId := Some (Num u)\<rparr>)
       (filter (\<lambda>u. \<not> already_invited invites (Num u)) us)"

definition existent_invites :: "invite \<Rightarrow> invite list \<Rightarrow> existent_user list \<Rightarrow> invite list" where
  \<comment> \<open>lines 86 to 92 and 100 to 108: the rows queued for the accounts that are not invited yet\<close>
  "existent_invites data invites existentUsers =
     map (\<lambda>user. data\<lparr>userId := Some (parseInt10 (user_id user)),
                       email := map_option toLowerCase (user_email user)\<rparr>)
       (filter (\<lambda>user. \<not> already_invited invites (parseInt10 (user_id user))) existentUsers)"

definition email_invites ::
  "req \<Rightarrow> invite \<Rightarrow> invite list \<Rightarrow> string list \<Rightarrow> existent_user list \<Rightarrow>
     invite list \<Rightarrow> js_error + invite list" where
  \<comment> \<open>the body of the \<open>then\<close> callback, lines 84 to 121, after \<open>queued\<close> rows; \<open>Inl\<close> when
      a comparison throws, with the rows queued until then lost to the caller of \<open>then\<close>\<close>
  "email_invites r data invites es existentUsers queued =
     (case lodash_remove (is_existent existentUsers) es of
        Inl e \<Rightarrow> Inl e
      | Inr nonExistentUserEmails \<Rightarrow>
          (case lodash_remove (email_invited (UNIQUE_GMAIL_VALIDATION r) invites)
                  nonExistentUserEmails of
             Inl e \<Rightarrow> Inl e
           | Inr rest \<Rightarrow>
               Inr (queued @ existent_invites data invites existentUsers
                    @ map (\<lambda>e. data\<lparr>email := Some (toLowerCase e)\<rparr>) rest)))"

definition queued_at_throw ::
  "invite \<Rightarrow> invite list \<Rightarrow> string list \<Rightarrow> existent_user list \<Rightarrow> invite list \<Rightarrow> invite list" where
  \<comment> \<open>\<open>invitePromises\<close> as the \<open>catch\<close> callback sees it when the \<open>then\<close> callback threw: the
      filter of line 94 runs before the accounts' rows are queued, the removal of line 111
      after\<close>
  "queued_at_throw data invites es existentUsers queued =
     (case lodash_remove (is_existent existentUsers) es of
        Inl e \<Rightarrow> queued
      | Inr nonExistentUserEmails \<Rightarrow> queued @ existent_invites data invites existentUsers)"

definition buildCreateInvitePromises ::
  "req \<Rightarrow> int list option \<Rightarrow> string list option \<Rightarrow> invite list \<Rightarrow> invite \<Rightarrow> failure list \<Rightarrow>
     invite list \<times> failure list" where
  \<comment> \<open>the rows handed to \<open>models.ProjectMemberInvite.create\<close>, in order, and \<open>failed\<close> as the
      call leaves it\<close>
  "buildCreateInvitePromises r ids mails invites data failed =
     (let invitePromises = (case ids of None \<Rightarrow> [] | Some us \<Rightarrow> user_invites data invites us)
      in case mails of
           None \<Rightarrow> (invitePromises, failed)
         | Some es \<Rightarrow>
             (case lookupUserEmails r es of
                Inl error \<Rightarrow>
                  (invitePromises, failed @ map (\<lambda>e. EmailFailure e (statusText error)) es)
              | Inr existentUsers \<Rightarrow>
                  (case email_invites r data invites es existentUsers invitePromises of
                     Inl error \<Rightarrow>
                       (queued_at_throw data invites es existentUsers invitePromises,
                        failed @ map (\<lambda>e. EmailFailure e (statusText error)) es)
                   | Inr promises \<Rightarrow> (promises, failed))))"

subsection \<open>The route handler\<close>

definition abort :: "js_error \<Rightarrow> outcome" where
  \<comment> \<open>\<open>return next(err)\<close> before anything was written\<close>
  "abort err = \<lparr>response = Next err, created = [], published = [], invite_emails = []\<rparr>"

definition forbidUserList :: "constants \<Rightarrow> int list \<Rightarrow> string list option list \<Rightarrow> int option list" where
  \<comment> \<open>lines 235 to 243\<close>
  "forbidUserList K us rolesList =
     map fst
       (filter (\<lambda>(u, roles). case roles of
                                None \<Rightarrow> False
                              | Some rs \<Rightarrow> \<not> hasIntersection (MANAGER_ROLES K) rs)
          (lodash_zip (map Some us) rolesList))"

definition manager_check ::
  "constants \<Rightarrow> string \<Rightarrow> int list option \<Rightarrow> string list option list \<Rightarrow> failure list \<Rightarrow>
     failure list \<times> int list option" where
  \<comment> \<open>lines 233 to 249: \<open>failed\<close> and \<open>invite.userIds\<close> afterwards\<close>
  "manager_check K rl ids rolesList failed =
     (case ids of
        None \<Rightarrow> (failed, None)
      | Some us \<Rightarrow>
          if rl \<in> set (PROJECT_MEMBER_MANAGER_ROLES K) then
            (let forbid = forbidUserList K us rolesList
             in if forbid \<noteq> [] then
                  (failed @ map (\<lambda>i. UserFailure i
                       ''cannot be added with a Manager role to the project'') forbid,
                   Some (filter (\<lambda>u. Some u \<notin> set forbid) us))
                else (failed, Some us))
          else (failed, Some us))"

definition invite_data :: "constants \<Rightarrow> req \<Rightarrow> string \<Rightarrow> invite" where
  \<comment> \<open>lines 252 to 262: the template \<open>data\<close>\<close>
  "invite_data K r rl =
     \<lparr>projectId = params_projectId r, userId = None, email = None, role = rl,
      status = (if rl \<noteq> COPILOT K \<or> hasRoles r [CONNECT_ADMIN K, COPILOT_MANAGER K]
                then PENDING else REQUESTED),
      createdBy = authUser_userId r, updatedBy = authUser_userId r\<rparr>"

definition wants_invite_email :: "invite \<Rightarrow> bool" where
  \<comment> \<open>\<open>v.email && !v.userId && v.status === INVITE_STATUS.PENDING\<close>\<close>
  "wants_invite_email v =
     (email v \<noteq> None \<and> email v \<noteq> Some [] \<and>
      (userId v = None \<or> userId v = Some NaN \<or> userId v = Some (Num 0)) \<and>
      status v = PENDING)"

definition respond :: "req \<Rightarrow> invite list \<Rightarrow> failure list \<Rightarrow> outcome" where
  \<comment> \<open>lines 265 to 296: the rows are inserted, announced and answered\<close>
  "respond r promises failed =
     (let rows = filter (\<lambda>d. create_rejects r d = None) promises
      in case promise_all (map (\<lambda>d. case create_rejects r d of
                                       None \<Rightarrow> Inr d
                                     | Some e \<Rightarrow> Inl e) promises) of
           Inl err \<Rightarrow>
             \<lparr>response = Next err, created = rows, published = [], invite_emails = []\<rparr>
         | Inr values \<Rightarrow>
             \<lparr>response = (if failed \<noteq> [] then Json 403 values (Some failed)
                          else Json 201 values None),
              created = rows, published = values,
              invite_emails = filter wants_invite_email values\<rparr>)"

definition authorize ::
  "constants \<Rightarrow> req \<Rightarrow> invite_param \<Rightarrow>
     js_error + int list option \<times> string list option \<times> failure list" where
  \<comment> \<open>lines 188 to 249: \<open>Inl\<close> when the handler calls \<open>next(err)\<close>, otherwise
      \<open>invite.userIds\<close>, \<open>invite.emails\<close> and \<open>failed\<close> as they stand at line 250\<close>
  "authorize K r invite =
     (if userIds invite = None \<and> emails invite = None then
        Inl (HttpError 400 ''Either userIds or emails are required'')
      else if \<not> hasRoles r (MANAGER_ROLES K) \<and> param_role invite \<noteq> CUSTOMER K then
        Inl (HttpError 403 (''You are not allowed to invite user as '' @ param_role invite))
      else
        (let members = currentProjectMembers r;
             ids = map_option (filter (\<lambda>u. u \<notin> set members)) (userIds invite);
             promises =
               (case ids of
                  None \<Rightarrow> []
                | Some us \<Rightarrow>
                    if param_role invite \<in> set (PROJECT_MEMBER_MANAGER_ROLES K)
                    then map (\<lambda>u. map_sum id Some (getUserRoles r u)) us else []);
             (failed, mails) =
               (case emails invite of
                  None \<Rightarrow> ([], None)
                | Some es \<Rightarrow>
                    if param_role invite \<noteq> CUSTOMER K
                    then (map (\<lambda>e. EmailFailure e
                                 (Some (''Emails can only be used for '' @ CUSTOMER K))) es,
                          None)
                    else ([], Some es))
         in case promise_all (if promises = [] then [Inr None] else promises) of
              Inl err \<Rightarrow> Inl err
            | Inr rolesList \<Rightarrow>
                (case manager_check K (param_role invite) ids rolesList failed of
                   (failed', ids') \<Rightarrow> Inr (ids', mails, failed'))))"

definition reconcile ::
  "constants \<Rightarrow> req \<Rightarrow> invite_param \<Rightarrow> js_error + invite list \<times> failure list" where
  \<comment> \<open>lines 188 to 265: \<open>Inl\<close> when the handler calls \<open>next(err)\<close> before any row is
      queued, otherwise the rows handed to \<open>create\<close> and \<open>failed\<close> as it stands at line 291\<close>
  "reconcile K r invite =
     (case authorize K r invite of
        Inl err \<Rightarrow> Inl err
      | Inr (ids, mails, failed) \<Rightarrow>
          (case getPendingInvitesForProject r (params_projectId r) of
             Inl err \<Rightarrow> Inl err
           | Inr invites \<Rightarrow>
               Inr (buildCreateInvitePromises r ids mails invites
                      (invite_data K r (param_role invite)) failed)))"

definition handler :: "constants \<Rightarrow> req \<Rightarrow> invite_param \<Rightarrow> outcome" where
  "handler K r invite =
     (case reconcile K r invite of
        Inl err \<Rightarrow> abort err
      | Inr (promises, failed) \<Rightarrow> respond r promises failed)"

subsection \<open>Notions used in the properties\<close>




subsection \<open>Example values\<close>

definition ex_constants :: constants where
  "ex_constants =
     \<lparr>CUSTOMER = ''customer'', COPILOT = ''copilot'',
      PROJECT_MEMBER_MANAGER_ROLES = [''manager'', ''account_manager''],
      MANAGER_ROLES = [''administrator'', ''Connect Manager''],
      CONNECT_ADMIN = ''Connect Admin'', COPILOT_MANAGER = ''Connect Copilot Manager''\<rparr>"

definition ex_req :: req where
  \<comment> \<open>a caller with the role \<open>Connect Manager\<close> on project 5, whose only member is user 1;
      user 7 is a manager with the address \<open>A@x.com\<close>, nobody is invited yet\<close>
  "ex_req =
     \<lparr>hasRoles = (\<lambda>rs. ''Connect Manager'' \<in> set rs), authUser_userId = 1,
      currentProjectMembers = [1], params_projectId = 5,
      getUserRoles = (\<lambda>u. if u = 7 then Inr [''Connect Manager''] else Inr [''Topcoder User'']),
      getPendingInvitesForProject = (\<lambda>p. Inr []),
      lookupUserEmails = (\<lambda>es. Inr [\<lparr>user_id = ''7'', user_email = Some ''A@x.com''\<rparr>]),
      create_rejects = (\<lambda>d. None),
      UNIQUE_GMAIL_VALIDATION = False\<rparr>"

definition ex_customer_req :: req where
  \<comment> \<open>the same, for a caller without any of the roles asked for\<close>
  "ex_customer_req = ex_req\<lparr>hasRoles := (\<lambda>rs. False)\<rparr>"

definition ex_lookup_down_req :: req where
  \<comment> \<open>the same, with the lookup of accounts by email rejected\<close>
  "ex_lookup_down_req =
     ex_req\<lparr>lookupUserEmails := (\<lambda>es. Inl (Rejected (Some ''Service Unavailable'')))\<rparr>"


definition ex_row :: "string \<Rightarrow> jsnum option \<Rightarrow> string option \<Rightarrow> invite" where
  \<comment> \<open>a pending row of project 5 written by user 1\<close>
  "ex_row rl u e =
     \<lparr>projectId = 5, userId = u, email = e, role = rl, status = PENDING,
      createdBy = 1, updatedBy = 1\<rparr>"

section \<open>Properties\<close>

subsection \<open>Auxiliary facts\<close>

lemma compareEmail_baseline: "compareEmail a b False = Inr (toLower a = toLower b)"
  by (simp add: compareEmail_def)

lemma lodash_some_total:
  "(\<And>x. x \<in> set xs \<Longrightarrow> \<exists>b. p x = Inr b) \<Longrightarrow>
     lodash_some p xs = Inr (list_ex (\<lambda>x. p x = Inr True) xs)"
proof (induction xs)
  case Nil
  then show ?case by simp
next
  case (Cons x xs)
  then obtain b where "p x = Inr b" by auto
  with Cons show ?case by simp
qed

lemma lodash_remove_total:
  "(\<And>x. x \<in> set xs \<Longrightarrow> \<exists>b. p x = Inr b) \<Longrightarrow>
     lodash_remove p xs = Inr (filter (\<lambda>x. p x = Inr False) xs)"
proof (induction xs)
  case Nil
  then show ?case by simp
next
  case (Cons x xs)
  then obtain b where "p x = Inr b" by auto
  with Cons show ?case by simp
qed

lemma is_existent_eq:
  "is_existent users e = Inr (list_ex (\<lambda>u. toLower (user_email u) = toLowerCase e) users)"
proof -
  have "lodash_some (\<lambda>u. compareEmail (user_email u) (Some e) False) users
        = Inr (list_ex (\<lambda>u. compareEmail (user_email u) (Some e) False = Inr True) users)"
    by (rule lodash_some_total) (simp add: compareEmail_baseline)
  then show ?thesis
    by (simp add: is_existent_def compareEmail_baseline toLower_def)
qed

lemma status_user_invites: "v \<in> set (user_invites data invites us) \<Longrightarrow> status v = status data"
  by (auto simp: user_invites_def)

lemma status_existent_invites:
  "v \<in> set (existent_invites data invites users) \<Longrightarrow> status v = status data"
  by (auto simp: existent_invites_def)

lemma status_email_invites:
  assumes "email_invites r data invites es users queued = Inr ps" and "v \<in> set ps"
    and "\<And>q. q \<in> set queued \<Longrightarrow> status q = status data"
  shows "status v = status data"
  using assms
  by (auto simp: email_invites_def split: sum.splits dest: status_existent_invites)

lemma status_queued_at_throw:
  assumes "v \<in> set (queued_at_throw data invites es users queued)"
    and "\<And>q. q \<in> set queued \<Longrightarrow> status q = status data"
  shows "status v = status data"
  using assms
  by (auto simp: queued_at_throw_def split: sum.splits dest: status_existent_invites)

lemma status_buildCreateInvitePromises:
  assumes "v \<in> set (fst (buildCreateInvitePromises r ids mails invites data failed))"
  shows "status v = status data"
proof -
  define queued where "queued = (case ids of None \<Rightarrow> [] | Some us \<Rightarrow> user_invites data invites us)"
  have q: "\<And>q. q \<in> set queued \<Longrightarrow> status q = status data"
    by (auto simp: queued_def split: option.splits dest: status_user_invites)
  show ?thesis
  proof (cases mails)
    case None
    with assms q show ?thesis by (simp add: buildCreateInvitePromises_def queued_def)
  next
    case (Some es)
    show ?thesis
    proof (cases "lookupUserEmails r es")
      case (Inl error)
      with assms q Some show ?thesis by (simp add: buildCreateInvitePromises_def queued_def)
    next
      case (Inr users)
      show ?thesis
      proof (cases "email_invites r data invites es users queued")
        case (Inl error)
        with assms Some Inr have "v \<in> set (queued_at_throw data invites es users queued)"
          by (simp add: buildCreateInvitePromises_def queued_def)
        then show ?thesis using q by (rule status_queued_at_throw)
      next
        case inr: (Inr ps)
        with assms Some Inr have "v \<in> set ps"
          by (simp add: buildCreateInvitePromises_def queued_def)
        with inr show ?thesis using q by (rule status_email_invites)
      qed
    qed
  qed
qed

lemma reconcile_rows:
  assumes "reconcile K r invite = Inr (ps, failed)"
  shows "\<exists>ids mails invites failed'.
           buildCreateInvitePromises r ids mails invites
             (invite_data K r (param_role invite)) failed' = (ps, failed)"
  using assms
  by (simp add: reconcile_def split: sum.splits prod.splits) blast

lemma created_respond: "set (created (respond r ps failed)) \<subseteq> set ps"
  by (auto simp: respond_def Let_def split: sum.splits)

lemma promise_all_created:
  "(\<And>d. d \<in> set ps \<Longrightarrow> create_rejects r d = None) \<Longrightarrow>
     promise_all (map (\<lambda>d. case create_rejects r d of None \<Rightarrow> Inr d | Some e \<Rightarrow> Inl e) ps) = Inr ps"
  by (induction ps) auto

lemma respond_created:
  assumes "\<And>d. d \<in> set ps \<Longrightarrow> create_rejects r d = None"
  shows "respond r ps failed =
           \<lparr>response = (if failed = [] then Json 201 ps None else Json 403 ps (Some failed)),
            created = ps, published = ps, invite_emails = filter wants_invite_email ps\<rparr>"
proof -
  have "filter (\<lambda>d. create_rejects r d = None) ps = ps"
    using assms by (simp add: filter_id_conv)
  then show ?thesis
    using promise_all_created [of ps r, OF assms] by (simp add: respond_def)
qed

lemma email_user_invites: "v \<in> set (user_invites data invites us) \<Longrightarrow> email v = email data"
  by (auto simp: user_invites_def)

lemma no_invite_email: "email v = None \<Longrightarrow> \<not> wants_invite_email v"
  by (simp add: wants_invite_email_def)

lemma role_lookups:
  "(\<And>u. u \<in> set us \<Longrightarrow> getUserRoles r u = Inr (roles u)) \<Longrightarrow>
     promise_all (map (\<lambda>u. map_sum id Some (getUserRoles r u)) us)
       = Inr (map (\<lambda>u. Some (roles u)) us)"
  by (induction us) auto

lemma lodash_zip_same:
  "lodash_zip (map Some us) (map (\<lambda>u. Some (f u)) us) = map (\<lambda>u. (Some u, Some (f u))) us"
  by (induction us) auto

lemma forbidUserList_eq:
  "forbidUserList K us (map (\<lambda>u. Some (roles u)) us)
     = map Some (filter (\<lambda>u. \<not> hasIntersection (MANAGER_ROLES K) (roles u)) us)"
  by (simp add: forbidUserList_def lodash_zip_same filter_map comp_def)

lemma forbidUserList_empty: "forbidUserList K [] [None] = []"
  by (simp add: forbidUserList_def)

lemma manager_check_eq:
  assumes "rl \<in> set (PROJECT_MEMBER_MANAGER_ROLES K)"
  shows "manager_check K rl (Some us) (if us = [] then [None] else map (\<lambda>u. Some (roles u)) us) failed
           = (failed @ map (\<lambda>u. UserFailure (Some u)
                 ''cannot be added with a Manager role to the project'')
                 (filter (\<lambda>u. \<not> hasIntersection (MANAGER_ROLES K) (roles u)) us),
              Some (filter (\<lambda>u. hasIntersection (MANAGER_ROLES K) (roles u)) us))"
proof (cases "us = []")
  case True
  with assms show ?thesis by (simp add: manager_check_def forbidUserList_empty)
next
  case False
  have keep: "filter (\<lambda>u. Some u \<notin> Some ` {x \<in> set us. \<not> hasIntersection (MANAGER_ROLES K) (roles x)}) us
      = filter (\<lambda>u. hasIntersection (MANAGER_ROLES K) (roles u)) us"
    by (rule filter_cong) auto
  show ?thesis
  proof (cases "filter (\<lambda>u. \<not> hasIntersection (MANAGER_ROLES K) (roles u)) us = []")
    case True
    then have "filter (\<lambda>u. hasIntersection (MANAGER_ROLES K) (roles u)) us = us"
      by (simp add: filter_empty_conv filter_id_conv)
    with True False assms show ?thesis
      by (simp add: manager_check_def forbidUserList_eq)
  next
    case nonempty: False
    with False assms keep show ?thesis
      by (simp add: manager_check_def forbidUserList_eq comp_def)
  qed
qed

lemma authorize_eq:
  assumes some: "userIds invite \<noteq> None \<or> emails invite \<noteq> None"
    and gate: "hasRoles r (MANAGER_ROLES K) \<or> param_role invite = CUSTOMER K"
    and roles: "\<forall>us. userIds invite = Some us \<longrightarrow> (\<forall>u\<in>set us. getUserRoles r u = Inr (roles u))"
  shows "authorize K r invite =
           Inr (map_option
                  (filter (\<lambda>u. u \<notin> set (currentProjectMembers r) \<and>
                     (param_role invite \<in> set (PROJECT_MEMBER_MANAGER_ROLES K) \<longrightarrow>
                        hasIntersection (MANAGER_ROLES K) (roles u)))) (userIds invite),
                (if param_role invite \<noteq> CUSTOMER K then None else emails invite),
                (case emails invite of
                   None \<Rightarrow> []
                 | Some es \<Rightarrow>
                     if param_role invite \<noteq> CUSTOMER K
                     then map (\<lambda>e. EmailFailure e
                                (Some (''Emails can only be used for '' @ CUSTOMER K))) es
                     else [])
                @ (case userIds invite of
                     None \<Rightarrow> []
                   | Some us \<Rightarrow>
                       if param_role invite \<in> set (PROJECT_MEMBER_MANAGER_ROLES K)
                       then map (\<lambda>u. UserFailure (Some u)
                                   ''cannot be added with a Manager role to the project'')
                              (filter (\<lambda>u. u \<notin> set (currentProjectMembers r) \<and>
                                 \<not> hasIntersection (MANAGER_ROLES K) (roles u)) us)
                       else []))"
proof (cases "userIds invite")
  case None
  with some gate show ?thesis
    by (auto simp: authorize_def manager_check_def split: option.splits)
next
  case (Some us)
  define us' where "us' = filter (\<lambda>u. u \<notin> set (currentProjectMembers r)) us"
  have lookups: "promise_all (map (\<lambda>u. map_sum id Some (getUserRoles r u)) us')
                   = Inr (map (\<lambda>u. Some (roles u)) us')"
    using roles Some by (intro role_lookups) (simp add: us'_def)
  show ?thesis
  proof (cases "param_role invite \<in> set (PROJECT_MEMBER_MANAGER_ROLES K)")
    case True
    have f1: "filter (\<lambda>u. hasIntersection (MANAGER_ROLES K) (roles u)) us'
                = filter (\<lambda>u. u \<notin> set (currentProjectMembers r) \<and>
                    hasIntersection (MANAGER_ROLES K) (roles u)) us"
      by (simp add: us'_def)
    have f2: "filter (\<lambda>u. \<not> hasIntersection (MANAGER_ROLES K) (roles u)) us'
                = filter (\<lambda>u. u \<notin> set (currentProjectMembers r) \<and>
                    \<not> hasIntersection (MANAGER_ROLES K) (roles u)) us"
      by (simp add: us'_def)
    have mc: "manager_check K (param_role invite) (Some us')
                (if us' = [] then [None] else map (\<lambda>u. Some (roles u)) us') failed0
              = (failed0 @ map (\<lambda>u. UserFailure (Some u)
                    ''cannot be added with a Manager role to the project'')
                    (filter (\<lambda>u. u \<notin> set (currentProjectMembers r) \<and>
                       \<not> hasIntersection (MANAGER_ROLES K) (roles u)) us),
                 Some (filter (\<lambda>u. u \<notin> set (currentProjectMembers r) \<and>
                    hasIntersection (MANAGER_ROLES K) (roles u)) us))" for failed0
      using manager_check_eq [OF True, of us' roles failed0] by (simp only: f1 f2)
    show ?thesis
    proof (cases "us' = []")
      case empty: True
      from mc empty have mc': "manager_check K (param_role invite) (Some []) [None] failed0
              = (failed0 @ map (\<lambda>u. UserFailure (Some u)
                    ''cannot be added with a Manager role to the project'')
                    (filter (\<lambda>u. u \<notin> set (currentProjectMembers r) \<and>
                       \<not> hasIntersection (MANAGER_ROLES K) (roles u)) us),
                 Some (filter (\<lambda>u. u \<notin> set (currentProjectMembers r) \<and>
                    hasIntersection (MANAGER_ROLES K) (roles u)) us))" for failed0
        by simp
      from empty have e: "filter (\<lambda>u. u \<notin> set (currentProjectMembers r)) us = []"
        by (simp add: us'_def)
      show ?thesis
        using Some True gate
        by (simp add: authorize_def Let_def e mc' split: option.splits)
    next
      case nonempty: False
      from mc nonempty have mc': "manager_check K (param_role invite)
                (Some (filter (\<lambda>u. u \<notin> set (currentProjectMembers r)) us))
                (map (\<lambda>u. Some (roles u)) (filter (\<lambda>u. u \<notin> set (currentProjectMembers r)) us))
                failed0
              = (failed0 @ map (\<lambda>u. UserFailure (Some u)
                    ''cannot be added with a Manager role to the project'')
                    (filter (\<lambda>u. u \<notin> set (currentProjectMembers r) \<and>
                       \<not> hasIntersection (MANAGER_ROLES K) (roles u)) us),
                 Some (filter (\<lambda>u. u \<notin> set (currentProjectMembers r) \<and>
                    hasIntersection (MANAGER_ROLES K) (roles u)) us))" for failed0
        by (simp add: us'_def)
      from nonempty have ne: "filter (\<lambda>u. u \<notin> set (currentProjectMembers r)) us \<noteq> []"
        by (simp add: us'_def)
      show ?thesis
        using Some True gate ne
        by (simp add: authorize_def Let_def mc' lookups [unfolded us'_def]
              split: option.splits)
    qed
  next
    case False
    with Some gate show ?thesis
      by (auto simp: authorize_def manager_check_def split: option.splits)
  qed
qed


lemma email_invited_total:
  assumes "\<forall>i\<in>set invites. \<exists>b. compareEmail (email i) (Some e) flag = Inr b"
  shows "email_invited flag invites e
           = Inr (list_ex (\<lambda>i. compareEmail (email i) (Some e) flag = Inr True) invites)"
  unfolding email_invited_def using assms by (intro lodash_some_total) simp

lemma build_closed:
  assumes lookup: "lookupUserEmails r es = Inr existentUsers"
    and total: "\<forall>i\<in>set invites. \<forall>e\<in>set es.
                  \<exists>b. compareEmail (email i) (Some e) (UNIQUE_GMAIL_VALIDATION r) = Inr b"
  shows "buildCreateInvitePromises r ids (Some es) invites data failed =
           ((case ids of None \<Rightarrow> [] | Some us \<Rightarrow> user_invites data invites us)
            @ existent_invites data invites existentUsers
            @ map (\<lambda>e. data\<lparr>email := Some (toLowerCase e)\<rparr>)
                (filter (\<lambda>e. \<not> list_ex (\<lambda>user. toLower (user_email user) = toLowerCase e)
                                 existentUsers \<and>
                              \<not> list_ex (\<lambda>i. compareEmail (email i) (Some e)
                                               (UNIQUE_GMAIL_VALIDATION r) = Inr True) invites)
                   es),
            failed)"
proof -
  let ?nonExistent = "filter (\<lambda>e. is_existent existentUsers e = Inr False) es"
  have one: "lodash_remove (is_existent existentUsers) es = Inr ?nonExistent"
    by (rule lodash_remove_total) (simp add: is_existent_eq)
  have inv: "email_invited (UNIQUE_GMAIL_VALIDATION r) invites e
               = Inr (list_ex (\<lambda>i. compareEmail (email i) (Some e)
                                     (UNIQUE_GMAIL_VALIDATION r) = Inr True) invites)"
    if "e \<in> set es" for e
    using total that by (intro email_invited_total) blast
  have two: "lodash_remove (email_invited (UNIQUE_GMAIL_VALIDATION r) invites) ?nonExistent
               = Inr (filter (\<lambda>e. email_invited (UNIQUE_GMAIL_VALIDATION r) invites e = Inr False)
                        ?nonExistent)"
    by (rule lodash_remove_total) (simp add: inv)
  have three: "filter (\<lambda>e. is_existent existentUsers e = Inr False \<and>
                   email_invited (UNIQUE_GMAIL_VALIDATION r) invites e = Inr False) es
               = filter (\<lambda>e. \<not> list_ex (\<lambda>user. toLower (user_email user) = toLowerCase e)
                                 existentUsers \<and>
                              \<not> list_ex (\<lambda>i. compareEmail (email i) (Some e)
                                               (UNIQUE_GMAIL_VALIDATION r) = Inr True) invites)
                   es"
    by (rule filter_cong) (auto simp: inv is_existent_eq)
  show ?thesis
    by (simp add: buildCreateInvitePromises_def email_invites_def lookup one two three)
qed



text \<open>
  Every pattern that \<open>compareEmail\<close> builds lies in the modelled fragment of the RegExp
  grammar: the comparison may throw a \<open>SyntaxError\<close>, but it never leaves the model.
\<close>

lemma local_char_plain:
  "is_local_char c \<Longrightarrow> c \<noteq> CHR 0x5C \<and> c \<noteq> CHR ''?'' \<and> \<not> is_syntax_char c"
  by (auto simp: is_local_char_def is_word_char_def is_syntax_char_def)

lemma parse_rev_local:
  assumes "is_local_char c"
  shows "parse_rev acc (c # cs) = Inl SyntaxError \<or> (\<exists>acc'. parse_rev acc (c # cs) = parse_rev acc' cs)"
proof -
  from assms have plain: "c \<noteq> CHR 0x5C" "c \<noteq> CHR ''?''" "\<not> is_syntax_char c"
    using local_char_plain by blast+
  show ?thesis
  proof (cases "c = CHR ''+''")
    case True
    then show ?thesis
      by (auto split: list.splits rx_piece.splits)
  next
    case False
    with plain show ?thesis
      by (cases "c = CHR ''.''") auto
  qed
qed

lemma parse_rev_separator:
  "parse_rev acc (CHR 0x5C # CHR ''.'' # CHR ''?'' # cs)
     = parse_rev (Opt (Lit (CHR ''.'')) False # acc) cs"
  by simp

lemma parse_rev_join:
  assumes "\<And>acc. parse_rev acc D \<noteq> Inl Unmodelled"
  shows "\<forall>c\<in>set cs. is_local_char c \<Longrightarrow>
    parse_rev acc (join [CHR 0x5C, CHR ''.'', CHR ''?''] (split_chars cs) @ D) \<noteq> Inl Unmodelled"
proof (induction cs arbitrary: acc)
  case Nil
  then show ?case using assms by (simp add: split_chars_def)
next
  case (Cons x xs)
  then have x: "is_local_char x" by simp
  show ?case
  proof (cases xs)
    case Nil
    from parse_rev_local [OF x, of acc D] show ?thesis
    proof
      assume "parse_rev acc (x # D) = Inl SyntaxError"
      then show ?thesis
        using Nil by (simp add: split_chars_def del: parse_rev.simps)
    next
      assume "\<exists>acc'. parse_rev acc (x # D) = parse_rev acc' D"
      then obtain acc' where "parse_rev acc (x # D) = parse_rev acc' D" ..
      then show ?thesis
        using Nil assms [of acc'] by (simp add: split_chars_def del: parse_rev.simps)
    qed
  next
    case (Cons y ys)
    let ?sep = "[CHR 0x5C, CHR ''.'', CHR ''?'']"
    let ?rest = "join ?sep (split_chars xs) @ D"
    have shape: "join ?sep (split_chars (x # xs)) @ D
                   = x # CHR 0x5C # CHR ''.'' # CHR ''?'' # ?rest"
      using Cons by (simp add: split_chars_def)
    from Cons.IH Cons.prems have ih: "parse_rev acc' ?rest \<noteq> Inl Unmodelled" for acc'
      by simp
    from parse_rev_local [OF x, of acc "CHR 0x5C # CHR ''.'' # CHR ''?'' # ?rest"]
    show ?thesis
    proof
      assume "parse_rev acc (x # CHR 0x5C # CHR ''.'' # CHR ''?'' # ?rest) = Inl SyntaxError"
      then show ?thesis
        unfolding shape by (simp del: parse_rev.simps)
    next
      assume "\<exists>acc'. parse_rev acc (x # CHR 0x5C # CHR ''.'' # CHR ''?'' # ?rest)
                = parse_rev acc' (CHR 0x5C # CHR ''.'' # CHR ''?'' # ?rest)"
      then obtain acc' where "parse_rev acc (x # CHR 0x5C # CHR ''.'' # CHR ''?'' # ?rest)
                = parse_rev acc' (CHR 0x5C # CHR ''.'' # CHR ''?'' # ?rest)" ..
      then show ?thesis
        unfolding shape parse_rev_separator using ih by (simp del: parse_rev.simps)
    qed
  qed
qed

lemma set_replace_first: "set (replace_first c [] xs) \<subseteq> set xs"
  by (induction xs) auto

lemma parse_rev_gmail:
  "parse_rev acc (replace_first (CHR ''.'') [CHR 0x5C, CHR ''.''] ''@gmail.com'') \<noteq> Inl Unmodelled"
  by (simp add: is_syntax_char_def)

lemma parse_rev_googlemail:
  "parse_rev acc (replace_first (CHR ''.'') [CHR 0x5C, CHR ''.''] ''@googlemail.com'')
     \<noteq> Inl Unmodelled"
  by (simp add: is_syntax_char_def)

lemma compareEmail_modelled: "compareEmail a b flag \<noteq> Inl Unmodelled"
proof (cases "if flag then emailSplit (toLower a) else None")
  case None
  then show ?thesis by (simp add: compareEmail_def)
next
  case (Some ld)
  obtain local domain where ld: "ld = (local, domain)" by (cases ld)
  from Some ld have split: "emailSplit (toLower a) = Some (local, domain)"
    by (simp split: if_splits)
  then have local: "\<forall>c\<in>set local. is_local_char c"
    and domain: "domain = ''@gmail.com'' \<or> domain = ''@googlemail.com''"
    by (auto simp: emailSplit_def Let_def split: if_splits dest: set_takeWhileD)
  from local have address: "\<forall>c\<in>set (replace_first (CHR ''.'') [] local). is_local_char c"
    using set_replace_first by blast
  from domain have "parse_rev acc (replace_first (CHR ''.'') [CHR 0x5C, CHR ''.''] domain)
                      \<noteq> Inl Unmodelled" for acc
    using parse_rev_gmail parse_rev_googlemail by blast
  then have "RegExp_new (join [CHR 0x5C, CHR ''.'', CHR ''?'']
                 (split_chars (replace_first (CHR ''.'') [] local))
               @ replace_first (CHR ''.'') [CHR 0x5C, CHR ''.''] domain) \<noteq> Inl Unmodelled"
    unfolding RegExp_new_def using address by (intro parse_rev_join) auto
  with Some ld show ?thesis
    by (auto simp: compareEmail_def Let_def split: sum.splits)
qed























text \<open>
  A \<open>+\<close> in the local part of a gmail address reaches the pattern unescaped, right after the
  quantifier of \<open>\\.?\<close> or at the start, and \<open>new RegExp\<close> throws.
\<close>

lemma compareEmail_plus_throws:
  "compareEmail (Some ''a+b@gmail.com'') (Some ''a+b@gmail.com'') True = Inl SyntaxError"
  by code_simp

subsection \<open>The email comparison\<close>

text \<open>
  C2, at the addresses \<open>a.b.c@gmail.com\<close> and \<open>abc@gmail.com\<close>, which differ only by the
  dots of the local part: with \<open>UNIQUE_GMAIL_VALIDATION\<close> set, \<open>compareEmail\<close> answers
  \<open>false\<close>. \<open>replace('.', '')\<close> removes the first dot only, and the second one becomes a
  wildcard of the pattern \<open>a\\.?b\\.?.\\.?c@gmail\\.com\<close>, which needs one more character.
\<close>

theorem compareEmail_second_dot:
  "filter (\<lambda>c. c \<noteq> CHR ''.'') ''a.b.c'' = ''abc'' \<and>
   compareEmail (Some ''a.b.c@gmail.com'') (Some ''abc@gmail.com'') True = Inr False"
  by code_simp

text \<open>
  C10: with \<open>UNIQUE_GMAIL_VALIDATION\<close> set, \<open>compareEmail\<close> is not symmetric. There are
  addresses \<open>a\<close> and \<open>b\<close>, the first one matching the gmail pattern and the second one not,
  such that \<open>compareEmail(a, b)\<close> is \<open>true\<close> and \<open>compareEmail(b, a)\<close> is \<open>false\<close>.
\<close>

theorem compareEmail_not_symmetric:
  "\<exists>a b. emailSplit (toLower (Some a)) \<noteq> None \<and> emailSplit (toLower (Some b)) = None \<and>
     compareEmail (Some a) (Some b) True = Inr True \<and>
     compareEmail (Some b) (Some a) True = Inr False"
proof -
  have "emailSplit (toLower (Some ''ab@gmail.com'')) \<noteq> None"
    by code_simp
  moreover have "emailSplit (toLower (Some ''ab@gmail.com.au'')) = None"
    by code_simp
  moreover have "compareEmail (Some ''ab@gmail.com'') (Some ''ab@gmail.com.au'') True = Inr True"
    by code_simp
  moreover have "compareEmail (Some ''ab@gmail.com.au'') (Some ''ab@gmail.com'') True = Inr False"
    by code_simp
  ultimately show ?thesis by blast
qed

subsection \<open>The status of a new invite\<close>

text \<open>
  C6: every row that one call of the handler inserts has the status \<open>REQUESTED\<close> exactly
  when the requested role is the copilot role and the caller holds neither the admin nor
  the copilot manager role, and the status \<open>PENDING\<close> otherwise; rows for user ids and rows
  for emails alike.
\<close>

theorem status_rule:
  assumes "v \<in> set (created (handler K r invite))"
  shows "status v = (if param_role invite = COPILOT K
                        \<and> \<not> hasRoles r [CONNECT_ADMIN K, COPILOT_MANAGER K]
                     then REQUESTED else PENDING)"
proof (cases "reconcile K r invite")
  case (Inl err)
  with assms show ?thesis by (simp add: handler_def abort_def)
next
  case (Inr pf)
  obtain ps failed where pf: "pf = (ps, failed)" by (cases pf)
  from assms Inr pf have "v \<in> set (created (respond r ps failed))" by (simp add: handler_def)
  then have v: "v \<in> set ps" using created_respond by blast
  from Inr pf obtain ids mails invites failed' where
    "buildCreateInvitePromises r ids mails invites
                      (invite_data K r (param_role invite)) failed' = (ps, failed)"
    using reconcile_rows by blast
  then have "ps = fst (buildCreateInvitePromises r ids mails invites
                      (invite_data K r (param_role invite)) failed')"
    by (metis fst_conv)
  with v have "status v = status (invite_data K r (param_role invite))"
    using status_buildCreateInvitePromises by blast
  then show ?thesis by (simp add: invite_data_def)
qed

theorem status_rule_witness:
  "(ex_row ''copilot'' (Some (Num 7)) None)\<lparr>status := REQUESTED\<rparr>
     \<in> set (created (handler ex_constants ex_req
                \<lparr>userIds = Some [7], emails = None, param_role = ''copilot''\<rparr>)) \<and>
   status ((ex_row ''copilot'' (Some (Num 7)) None)\<lparr>status := REQUESTED\<rparr>) =
     (if param_role \<lparr>userIds = Some [7], emails = None, param_role = ''copilot''\<rparr>
           = COPILOT ex_constants
         \<and> \<not> hasRoles ex_req [CONNECT_ADMIN ex_constants, COPILOT_MANAGER ex_constants]
      then REQUESTED else PENDING)"
proof -
  have h: "(ex_row ''copilot'' (Some (Num 7)) None)\<lparr>status := REQUESTED\<rparr>
     \<in> set (created (handler ex_constants ex_req
                \<lparr>userIds = Some [7], emails = None, param_role = ''copilot''\<rparr>))"
    by code_simp
  show ?thesis
    by (rule conjI [OF h status_rule [OF h]])
qed

subsection \<open>The response\<close>

text \<open>
  C9: when the handler reaches its last step with the rows \<open>promises\<close> and the accumulated
  list \<open>failed\<close>, and every row is inserted, it answers with status 403 and a body holding
  the rows and the failures if there is at least one failure, and with status 201 and a body
  holding the rows only if there is none.
\<close>

theorem response_aggregation:
  assumes "reconcile K r invite = Inr (promises, failed)"
    and "\<forall>d\<in>set promises. create_rejects r d = None"
  shows "response (handler K r invite) =
           (if failed = [] then Json 201 promises None else Json 403 promises (Some failed))"
  using assms by (simp add: handler_def respond_created)

theorem response_aggregation_witness:
  "reconcile ex_constants ex_req \<lparr>userIds = Some [7, 8], emails = None, param_role = ''manager''\<rparr>
     = Inr ([ex_row ''manager'' (Some (Num 7)) None],
            [UserFailure (Some 8) ''cannot be added with a Manager role to the project'']) \<and>
   create_rejects ex_req (ex_row ''manager'' (Some (Num 7)) None) = None \<and>
   response (handler ex_constants ex_req
       \<lparr>userIds = Some [7, 8], emails = None, param_role = ''manager''\<rparr>) =
     Json 403 [ex_row ''manager'' (Some (Num 7)) None]
       (Some [UserFailure (Some 8) ''cannot be added with a Manager role to the project''])"
proof -
  have h1: "reconcile ex_constants ex_req
       \<lparr>userIds = Some [7, 8], emails = None, param_role = ''manager''\<rparr>
     = Inr ([ex_row ''manager'' (Some (Num 7)) None],
            [UserFailure (Some 8) ''cannot be added with a Manager role to the project''])"
    by code_simp
  have h2: "\<forall>d\<in>set [ex_row ''manager'' (Some (Num 7)) None]. create_rejects ex_req d = None"
    by (simp add: ex_req_def)
  show ?thesis
    using h1 h2 response_aggregation [OF h1 h2] by simp
qed

subsection \<open>The gate on the requested role\<close>

text \<open>
  C3, amended: for every request that names user ids or emails, asks for a role other than
  the customer role and comes from a caller without a manager role, the handler calls
  \<open>next\<close> with an error of status 403, and inserts, announces and mails nothing.
\<close>

theorem request_gate:
  assumes "param_role invite \<noteq> CUSTOMER K" and "\<not> hasRoles r (MANAGER_ROLES K)"
    and "userIds invite \<noteq> None \<or> emails invite \<noteq> None"
  shows "handler K r invite =
           \<lparr>response = Next (HttpError 403
                (''You are not allowed to invite user as '' @ param_role invite)),
            created = [], published = [], invite_emails = []\<rparr>"
  using assms by (auto simp: handler_def reconcile_def authorize_def abort_def)

theorem request_gate_witness:
  "param_role \<lparr>userIds = Some [7], emails = None, param_role = ''manager''\<rparr>
      \<noteq> CUSTOMER ex_constants \<and>
   \<not> hasRoles ex_customer_req (MANAGER_ROLES ex_constants) \<and>
   handler ex_constants ex_customer_req
       \<lparr>userIds = Some [7], emails = None, param_role = ''manager''\<rparr> =
     \<lparr>response = Next (HttpError 403 ''You are not allowed to invite user as manager''),
      created = [], published = [], invite_emails = []\<rparr>"
proof -
  have h1: "param_role \<lparr>userIds = Some [7], emails = None, param_role = ''manager''\<rparr>
      \<noteq> CUSTOMER ex_constants"
    by (simp add: ex_constants_def)
  have h2: "\<not> hasRoles ex_customer_req (MANAGER_ROLES ex_constants)"
    by (simp add: ex_customer_req_def)
  have h3: "userIds \<lparr>userIds = Some [7], emails = None, param_role = ''manager''\<rparr> \<noteq> None
      \<or> emails \<lparr>userIds = Some [7], emails = None, param_role = ''manager''\<rparr> \<noteq> None"
    by simp
  show ?thesis
    using h1 h2 request_gate [OF h1 h2 h3] by simp
qed

text \<open>
  C3 as stated fails for a request that names neither user ids nor emails: the check of
  line 191 comes first, and the error has status 400.
\<close>

theorem request_gate_counterexample:
  "param_role \<lparr>userIds = None, emails = None, param_role = ''manager''\<rparr>
      \<noteq> CUSTOMER ex_constants \<and>
   \<not> hasRoles ex_customer_req (MANAGER_ROLES ex_constants) \<and>
   response (handler ex_constants ex_customer_req
       \<lparr>userIds = None, emails = None, param_role = ''manager''\<rparr>) =
     Next (HttpError 400 ''Either userIds or emails are required'')"
  by code_simp

subsection \<open>A rejected lookup of accounts by email\<close>

text \<open>
  C7: when the request carries emails for the customer role (which is not a manager role of
  the project) and \<open>util.lookupUserEmails\<close> is rejected, every email of the request becomes
  one entry of \<open>failed\<close>, no row is made for an email, and the handler still answers: the
  rows queued for the user ids are inserted and returned in \<open>success\<close>.
\<close>

theorem email_lookup_failure:
  assumes mails: "emails invite = Some es" "es \<noteq> []"
    and rl: "param_role invite = CUSTOMER K"
      "CUSTOMER K \<notin> set (PROJECT_MEMBER_MANAGER_ROLES K)"
    and invites: "getPendingInvitesForProject r (params_projectId r) = Inr invites"
    and lookup: "lookupUserEmails r es = Inl error"
    and rows: "rows = (case userIds invite of
                         None \<Rightarrow> []
                       | Some us \<Rightarrow>
                           user_invites (invite_data K r (CUSTOMER K)) invites
                             (filter (\<lambda>u. u \<notin> set (currentProjectMembers r)) us))"
    and created: "\<forall>d\<in>set rows. create_rejects r d = None"
  shows "handler K r invite =
           \<lparr>response = Json 403 rows (Some (map (\<lambda>e. EmailFailure e (statusText error)) es)),
            created = rows, published = rows, invite_emails = []\<rparr>"
proof -
  have rec: "reconcile K r invite =
               Inr (rows, map (\<lambda>e. EmailFailure e (statusText error)) es)"
    using mails rl invites lookup rows
    by (simp add: reconcile_def authorize_def manager_check_def buildCreateInvitePromises_def
          split: option.splits)
  have "email v = None" if "v \<in> set rows" for v
    using that rows by (auto simp: invite_data_def split: option.splits dest: email_user_invites)
  then have "filter wants_invite_email rows = []"
    by (simp add: no_invite_email)
  with rec created mails show ?thesis
    by (simp add: handler_def respond_created)
qed


theorem email_lookup_failure_witness:
  "emails \<lparr>userIds = Some [7], emails = Some [''a@x.com''], param_role = ''customer''\<rparr>
     = Some [''a@x.com''] \<and>
   lookupUserEmails ex_lookup_down_req [''a@x.com''] = Inl (Rejected (Some ''Service Unavailable'')) \<and>
   handler ex_constants ex_lookup_down_req
       \<lparr>userIds = Some [7], emails = Some [''a@x.com''], param_role = ''customer''\<rparr> =
     \<lparr>response = Json 403 [ex_row ''customer'' (Some (Num 7)) None]
                   (Some [EmailFailure ''a@x.com'' (Some ''Service Unavailable'')]),
      created = [ex_row ''customer'' (Some (Num 7)) None],
      published = [ex_row ''customer'' (Some (Num 7)) None],
      invite_emails = []\<rparr>"
proof -
  let ?invite = "\<lparr>userIds = Some [7], emails = Some [''a@x.com''], param_role = ''customer''\<rparr>"
  let ?rows = "[ex_row ''customer'' (Some (Num 7)) None]"
  have h1: "emails ?invite = Some [''a@x.com'']"
    by simp
  have h2: "[''a@x.com''] \<noteq> []"
    by simp
  have h3: "param_role ?invite = CUSTOMER ex_constants"
    by (simp add: ex_constants_def)
  have h4: "CUSTOMER ex_constants \<notin> set (PROJECT_MEMBER_MANAGER_ROLES ex_constants)"
    by (simp add: ex_constants_def)
  have h5: "getPendingInvitesForProject ex_lookup_down_req (params_projectId ex_lookup_down_req)
              = Inr []"
    by (simp add: ex_lookup_down_req_def ex_req_def)
  have h6: "lookupUserEmails ex_lookup_down_req [''a@x.com'']
              = Inl (Rejected (Some ''Service Unavailable''))"
    by (simp add: ex_lookup_down_req_def)
  have h7: "?rows = (case userIds ?invite of
                       None \<Rightarrow> []
                     | Some us \<Rightarrow>
                         user_invites (invite_data ex_constants ex_lookup_down_req
                             (CUSTOMER ex_constants)) []
                           (filter (\<lambda>u. u \<notin> set (currentProjectMembers ex_lookup_down_req)) us))"
    by code_simp
  have h8: "\<forall>d\<in>set ?rows. create_rejects ex_lookup_down_req d = None"
    by (simp add: ex_lookup_down_req_def ex_req_def)
  show ?thesis
    using h1 h6 email_lookup_failure [OF h1 h2 h3 h4 h5 h6 h7 h8] by simp
qed

subsection \<open>The manager check of each user id\<close>

text \<open>
  C5, amended: for a request with the user ids \<open>[U1, U2]\<close> and a manager role of the project,
  sent by a caller who passes the gate on the role, where neither user is a member, \<open>U1\<close> is
  not invited yet, the roles fetched for \<open>U1\<close> intersect \<open>MANAGER_ROLES\<close> and those fetched
  for \<open>U2\<close> do not: exactly one row is inserted, the one for \<open>U1\<close>, and \<open>failed\<close> holds exactly
  one entry, for \<open>U2\<close>, with the message \<open>cannot be added with a Manager role to the project\<close>.
\<close>

theorem per_candidate_manager_check:
  assumes ids: "userIds invite = Some [U1, U2]" and mails: "emails invite = None"
    and rl: "param_role invite \<in> set (PROJECT_MEMBER_MANAGER_ROLES K)"
    and gate: "hasRoles r (MANAGER_ROLES K) \<or> param_role invite = CUSTOMER K"
    and members: "U1 \<notin> set (currentProjectMembers r)" "U2 \<notin> set (currentProjectMembers r)"
    and roles1: "getUserRoles r U1 = Inr roles1" "hasIntersection (MANAGER_ROLES K) roles1"
    and roles2: "getUserRoles r U2 = Inr roles2" "\<not> hasIntersection (MANAGER_ROLES K) roles2"
    and invites: "getPendingInvitesForProject r (params_projectId r) = Inr invites"
      "\<not> already_invited invites (Num U1)"
    and row: "row = (invite_data K r (param_role invite))\<lparr>userId := Some (Num U1)\<rparr>"
    and created: "create_rejects r row = None"
  shows "handler K r invite =
           \<lparr>response = Json 403 [row]
              (Some [UserFailure (Some U2) ''cannot be added with a Manager role to the project'']),
            created = [row], published = [row], invite_emails = []\<rparr>"
proof -
  from roles1 roles2 have ne: "U1 \<noteq> U2"
    by auto
  define roles where "roles = (\<lambda>u. if u = U1 then roles1 else roles2)"
  have "authorize K r invite =
          Inr (Some [U1], None,
               [UserFailure (Some U2) ''cannot be added with a Manager role to the project''])"
    using authorize_eq [of invite r K roles] ids mails rl gate members roles1 roles2 ne
    by (auto simp: roles_def)
  then have "reconcile K r invite =
          Inr ([row], [UserFailure (Some U2) ''cannot be added with a Manager role to the project''])"
    using invites row
    by (simp add: reconcile_def buildCreateInvitePromises_def user_invites_def)
  moreover have "\<not> wants_invite_email row"
    using row by (simp add: wants_invite_email_def invite_data_def)
  moreover have "respond r [row] failed =
           \<lparr>response = (if failed = [] then Json 201 [row] None
                         else Json 403 [row] (Some failed)),
            created = [row], published = [row],
            invite_emails = filter wants_invite_email [row]\<rparr>" for failed
    using created by (intro respond_created) simp
  ultimately show ?thesis
    by (simp add: handler_def)
qed

theorem per_candidate_manager_check_witness:
  "hasIntersection (MANAGER_ROLES ex_constants) [''Connect Manager''] \<and>
   \<not> hasIntersection (MANAGER_ROLES ex_constants) [''Topcoder User''] \<and>
   handler ex_constants ex_req
       \<lparr>userIds = Some [7, 8], emails = None, param_role = ''manager''\<rparr> =
     \<lparr>response = Json 403 [ex_row ''manager'' (Some (Num 7)) None]
        (Some [UserFailure (Some 8) ''cannot be added with a Manager role to the project'']),
      created = [ex_row ''manager'' (Some (Num 7)) None],
      published = [ex_row ''manager'' (Some (Num 7)) None], invite_emails = []\<rparr>"
proof -
  let ?invite = "\<lparr>userIds = Some [7, 8], emails = None, param_role = ''manager''\<rparr>"
  have h1: "userIds ?invite = Some [7, 8]" and h2: "emails ?invite = None"
    by simp_all
  have h3: "param_role ?invite \<in> set (PROJECT_MEMBER_MANAGER_ROLES ex_constants)"
    by (simp add: ex_constants_def)
  have h4: "hasRoles ex_req (MANAGER_ROLES ex_constants)
              \<or> param_role ?invite = CUSTOMER ex_constants"
    by (simp add: ex_constants_def ex_req_def)
  have h5: "7 \<notin> set (currentProjectMembers ex_req)" and h6: "8 \<notin> set (currentProjectMembers ex_req)"
    by (simp_all add: ex_req_def)
  have h7: "getUserRoles ex_req 7 = Inr [''Connect Manager'']"
    and h9: "getUserRoles ex_req 8 = Inr [''Topcoder User'']"
    by (simp_all add: ex_req_def)
  have h8: "hasIntersection (MANAGER_ROLES ex_constants) [''Connect Manager'']"
    by code_simp
  have h10: "\<not> hasIntersection (MANAGER_ROLES ex_constants) [''Topcoder User'']"
    by code_simp
  have h11: "getPendingInvitesForProject ex_req (params_projectId ex_req) = Inr []"
    by (simp add: ex_req_def)
  have h12: "\<not> already_invited [] (Num 7)"
    by (simp add: already_invited_def)
  have h13: "ex_row ''manager'' (Some (Num 7)) None
               = (invite_data ex_constants ex_req (param_role ?invite))\<lparr>userId := Some (Num 7)\<rparr>"
    by code_simp
  have h14: "create_rejects ex_req (ex_row ''manager'' (Some (Num 7)) None) = None"
    by (simp add: ex_req_def)
  show ?thesis
    using h8 h10
      per_candidate_manager_check [OF h1 h2 h3 h4 h5 h6 h7 h8 h9 h10 h11 h12 h13 h14]
    by simp
qed

text \<open>
  C5 as stated fails on the message: the entry of \<open>failed\<close> reads \<open>Manager\<close>, with a capital.
\<close>

theorem per_candidate_manager_check_counterexample:
  "response (handler ex_constants ex_req
       \<lparr>userIds = Some [7, 8], emails = None, param_role = ''manager''\<rparr>) =
     Json 403 [ex_row ''manager'' (Some (Num 7)) None]
       (Some [UserFailure (Some 8) ''cannot be added with a Manager role to the project'']) \<and>
   response (handler ex_constants ex_req
       \<lparr>userIds = Some [7, 8], emails = None, param_role = ''manager''\<rparr>) \<noteq>
     Json 403 [ex_row ''manager'' (Some (Num 7)) None]
       (Some [UserFailure (Some 8) ''cannot be added with a manager role to the project''])"
  by code_simp

subsection \<open>Emails and roles other than the customer role\<close>

text \<open>
  C4, amended: for every request with emails and a role other than the customer role, sent by
  a caller with a manager role, and provided the roles of the user ids can be fetched and the
  pending invites can be read, the handler reaches its last step (the request is not
  aborted); every email of the request has become one entry of \<open>failed\<close> with the message
  \<open>Emails can only be used for\<close> followed by the customer role; no row carries an email; and
  the rows are those of the user ids that are neither members nor invited nor, for a manager
  role of the project, rejected by the manager check, which adds its own entries to \<open>failed\<close>.
\<close>

theorem email_role_restriction:
  assumes mails: "emails invite = Some es"
    and rl: "param_role invite \<noteq> CUSTOMER K"
    and gate: "hasRoles r (MANAGER_ROLES K)"
    and roles: "\<forall>us. userIds invite = Some us \<longrightarrow> (\<forall>u\<in>set us. getUserRoles r u = Inr (roles u))"
    and invites: "getPendingInvitesForProject r (params_projectId r) = Inr invites"
    and ids: "ids = (case userIds invite of
                       None \<Rightarrow> []
                     | Some us \<Rightarrow> filter (\<lambda>u. u \<notin> set (currentProjectMembers r)) us)"
  shows "\<exists>rows. reconcile K r invite =
           Inr (rows,
                map (\<lambda>e. EmailFailure e (Some (''Emails can only be used for '' @ CUSTOMER K))) es
                @ (if param_role invite \<in> set (PROJECT_MEMBER_MANAGER_ROLES K)
                   then map (\<lambda>u. UserFailure (Some u)
                               ''cannot be added with a Manager role to the project'')
                          (filter (\<lambda>u. \<not> hasIntersection (MANAGER_ROLES K) (roles u)) ids)
                   else []))
         \<and> rows = user_invites (invite_data K r (param_role invite)) invites
               (filter (\<lambda>u. param_role invite \<in> set (PROJECT_MEMBER_MANAGER_ROLES K) \<longrightarrow>
                          hasIntersection (MANAGER_ROLES K) (roles u)) ids)
         \<and> (\<forall>v\<in>set rows. email v = None)"
proof -
  have auth: "authorize K r invite =
           Inr (map_option
                  (filter (\<lambda>u. u \<notin> set (currentProjectMembers r) \<and>
                     (param_role invite \<in> set (PROJECT_MEMBER_MANAGER_ROLES K) \<longrightarrow>
                        hasIntersection (MANAGER_ROLES K) (roles u)))) (userIds invite),
                None,
                map (\<lambda>e. EmailFailure e
                           (Some (''Emails can only be used for '' @ CUSTOMER K))) es
                @ (case userIds invite of
                     None \<Rightarrow> []
                   | Some us \<Rightarrow>
                       if param_role invite \<in> set (PROJECT_MEMBER_MANAGER_ROLES K)
                       then map (\<lambda>u. UserFailure (Some u)
                                   ''cannot be added with a Manager role to the project'')
                              (filter (\<lambda>u. u \<notin> set (currentProjectMembers r) \<and>
                                 \<not> hasIntersection (MANAGER_ROLES K) (roles u)) us)
                       else []))"
    using authorize_eq [of invite r K roles] mails rl gate roles by simp
  have rec: "reconcile K r invite =
           Inr (user_invites (invite_data K r (param_role invite)) invites
                  (filter (\<lambda>u. param_role invite \<in> set (PROJECT_MEMBER_MANAGER_ROLES K) \<longrightarrow>
                             hasIntersection (MANAGER_ROLES K) (roles u)) ids),
                map (\<lambda>e. EmailFailure e (Some (''Emails can only be used for '' @ CUSTOMER K))) es
                @ (if param_role invite \<in> set (PROJECT_MEMBER_MANAGER_ROLES K)
                   then map (\<lambda>u. UserFailure (Some u)
                               ''cannot be added with a Manager role to the project'')
                          (filter (\<lambda>u. \<not> hasIntersection (MANAGER_ROLES K) (roles u)) ids)
                   else []))"
    using invites ids
    by (cases "userIds invite")
       (simp_all add: reconcile_def auth buildCreateInvitePromises_def user_invites_def)
  have "email v = None"
    if "v \<in> set (user_invites (invite_data K r (param_role invite)) invites us)" for v us
    using email_user_invites [OF that] by (simp add: invite_data_def)
  with rec show ?thesis
    by blast
qed

theorem email_role_restriction_witness:
  "emails \<lparr>userIds = Some [7, 8], emails = Some [''a@x.com''], param_role = ''manager''\<rparr>
     = Some [''a@x.com''] \<and>
   param_role \<lparr>userIds = Some [7, 8], emails = Some [''a@x.com''], param_role = ''manager''\<rparr>
     \<noteq> CUSTOMER ex_constants \<and>
   hasRoles ex_req (MANAGER_ROLES ex_constants) \<and>
   reconcile ex_constants ex_req
       \<lparr>userIds = Some [7, 8], emails = Some [''a@x.com''], param_role = ''manager''\<rparr> =
     Inr ([ex_row ''manager'' (Some (Num 7)) None],
          [EmailFailure ''a@x.com'' (Some ''Emails can only be used for customer''),
           UserFailure (Some 8) ''cannot be added with a Manager role to the project''])"
proof -
  let ?invite = "\<lparr>userIds = Some [7, 8], emails = Some [''a@x.com''], param_role = ''manager''\<rparr>"
  let ?roles = "\<lambda>u::int. if u = 7 then [''Connect Manager''] else [''Topcoder User'']"
  have h1: "emails ?invite = Some [''a@x.com'']"
    by simp
  have h2: "param_role ?invite \<noteq> CUSTOMER ex_constants"
    by (simp add: ex_constants_def)
  have h3: "hasRoles ex_req (MANAGER_ROLES ex_constants)"
    by (simp add: ex_constants_def ex_req_def)
  have h4: "\<forall>us. userIds ?invite = Some us \<longrightarrow>
              (\<forall>u\<in>set us. getUserRoles ex_req u = Inr (?roles u))"
    by (simp add: ex_req_def)
  have h5: "getPendingInvitesForProject ex_req (params_projectId ex_req) = Inr []"
    by (simp add: ex_req_def)
  have h6: "[7, 8] = (case userIds ?invite of
                        None \<Rightarrow> []
                      | Some us \<Rightarrow> filter (\<lambda>u. u \<notin> set (currentProjectMembers ex_req)) us)"
    by (simp add: ex_req_def)
  have direct: "reconcile ex_constants ex_req ?invite =
     Inr ([ex_row ''manager'' (Some (Num 7)) None],
          [EmailFailure ''a@x.com'' (Some ''Emails can only be used for customer''),
           UserFailure (Some 8) ''cannot be added with a Manager role to the project''])"
    by code_simp
  from email_role_restriction [OF h1 h2 h3 h4 h5 h6] obtain rows failed
    where "reconcile ex_constants ex_req ?invite = Inr (rows, failed)"
    by blast
  with direct h1 h2 h3 show ?thesis
    by simp
qed

text \<open>
  C4 as stated fails on the message, which starts with a capital, and for a caller without a
  manager role, whose request is aborted by the gate on the role.
\<close>

theorem email_role_restriction_counterexample:
  "response (handler ex_constants ex_req
       \<lparr>userIds = None, emails = Some [''a@x.com''], param_role = ''manager''\<rparr>) =
     Json 403 []
       (Some [EmailFailure ''a@x.com'' (Some ''Emails can only be used for customer'')]) \<and>
   response (handler ex_constants ex_req
       \<lparr>userIds = None, emails = Some [''a@x.com''], param_role = ''manager''\<rparr>) \<noteq>
     Json 403 []
       (Some [EmailFailure ''a@x.com'' (Some ''emails can only be used for customer'')]) \<and>
   response (handler ex_constants ex_customer_req
       \<lparr>userIds = None, emails = Some [''a@x.com''], param_role = ''manager''\<rparr>) =
     Next (HttpError 403 ''You are not allowed to invite user as manager'')"
  by code_simp

subsection \<open>The rows made for emails\<close>

text \<open>
  C8, amended: when the lookup of accounts succeeds and no comparison throws, the rows made
  for the emails of a request are, in this order: one row for every account returned by the
  lookup whose user id no pending invite carries (the accounts are matched against the
  pending invites by user id, not by email), with that user id and the account's email in
  lower case; then one row for every email of the request that no account's email equals up
  to case (the comparison without the gmail rule) and that \<open>compareEmail\<close>, under the
  configured \<open>UNIQUE_GMAIL_VALIDATION\<close>, finds equal to the email of no pending invite, with
  the email in lower case and no user id.
\<close>

theorem materializer_dedup:
  assumes lookup: "lookupUserEmails r es = Inr existentUsers"
    and total: "\<forall>i\<in>set invites. \<forall>e\<in>set es.
                  \<exists>b. compareEmail (email i) (Some e) (UNIQUE_GMAIL_VALIDATION r) = Inr b"
  shows "buildCreateInvitePromises r None (Some es) invites data failed =
           (map (\<lambda>user. data\<lparr>userId := Some (parseInt10 (user_id user)),
                              email := map_option toLowerCase (user_email user)\<rparr>)
              (filter (\<lambda>user. \<not> list_ex (\<lambda>i. same_userId (userId i) (parseInt10 (user_id user)))
                                  invites)
                 existentUsers)
            @ map (\<lambda>e. data\<lparr>email := Some (toLowerCase e)\<rparr>)
                (filter (\<lambda>e. \<not> list_ex (\<lambda>user. toLower (user_email user) = toLowerCase e)
                                 existentUsers \<and>
                              \<not> list_ex (\<lambda>i. compareEmail (email i) (Some e)
                                               (UNIQUE_GMAIL_VALIDATION r) = Inr True) invites)
                   es),
            failed)"
  using build_closed [OF lookup total, where ids = None and data = data and failed = failed]
  by (simp add: existent_invites_def already_invited_def)

theorem materializer_dedup_witness:
  "lookupUserEmails ex_req [''a@x.com'', ''B@y.com'', ''c@z.com'']
     = Inr [\<lparr>user_id = ''7'', user_email = Some ''A@x.com''\<rparr>] \<and>
   buildCreateInvitePromises ex_req None (Some [''a@x.com'', ''B@y.com'', ''c@z.com''])
       [ex_row ''customer'' None (Some ''b@y.com'')] (ex_row ''customer'' None None) [] =
     ([ex_row ''customer'' (Some (Num 7)) (Some ''a@x.com''),
       ex_row ''customer'' None (Some ''c@z.com'')], [])"
proof -
  let ?es = "[''a@x.com'', ''B@y.com'', ''c@z.com'']"
  let ?invites = "[ex_row ''customer'' None (Some ''b@y.com'')]"
  have h1: "lookupUserEmails ex_req ?es = Inr [\<lparr>user_id = ''7'', user_email = Some ''A@x.com''\<rparr>]"
    by (simp add: ex_req_def)
  have h2: "\<forall>i\<in>set ?invites. \<forall>e\<in>set ?es.
              \<exists>b. compareEmail (email i) (Some e) (UNIQUE_GMAIL_VALIDATION ex_req) = Inr b"
    by (simp add: ex_req_def compareEmail_baseline)
  have direct: "buildCreateInvitePromises ex_req None (Some ?es) ?invites
       (ex_row ''customer'' None None) [] =
     ([ex_row ''customer'' (Some (Num 7)) (Some ''a@x.com''),
       ex_row ''customer'' None (Some ''c@z.com'')], [])"
    unfolding materializer_dedup [OF h1 h2] by code_simp
  with h1 show ?thesis
    by simp
qed

text \<open>
  C8 as stated fails for an account whose email a pending invite already carries: with a
  pending invite for \<open>a@x.com\<close> that has no user id, and the account 7 with that address, a
  request for \<open>a@x.com\<close> yields a new row, although the comparison without the gmail rule
  finds the two emails equal.
\<close>

theorem materializer_dedup_counterexample:
  "compareEmail (email (ex_row ''customer'' None (Some ''a@x.com''))) (Some ''a@x.com'') False = Inr True \<and>
   lookupUserEmails ex_req [''a@x.com''] = Inr [\<lparr>user_id = ''7'', user_email = Some ''A@x.com''\<rparr>] \<and>
   buildCreateInvitePromises ex_req None (Some [''a@x.com'']) [(ex_row ''customer'' None (Some ''a@x.com''))]
       (ex_row ''customer'' None None) [] =
     ([ex_row ''customer'' (Some (Num 7)) (Some ''a@x.com'')], [])"
  by code_simp


subsection \<open>Calling the handler again\<close>




end
